theory Spec2Isabelle
  imports Complex_Main "HOL-Library.Sublist"
begin

section \<open>Strings, as the year extractor reads them\<close>

text \<open>
  A path is a \<open>string\<close>: a list of 8-bit characters, read as the code points
  U+0000 to U+00FF. Within that range the characters that Python's \<open>\d\<close> and
  \<open>int()\<close> accept as decimal digits are exactly \<open>0\<close> to \<open>9\<close>, and the characters
  that \<open>int()\<close> strips as white space are tab, line feed, vertical tab, form feed,
  carriage return, space, U+0085 and U+00A0.
\<close>

definition is_digit :: "char \<Rightarrow> bool" where
  "is_digit c = (48 \<le> (of_char c :: nat) \<and> (of_char c :: nat) \<le> 57)"

definition digit_val :: "char \<Rightarrow> nat" where
  "digit_val c = (of_char c :: nat) - 48"

definition py_isspace :: "char \<Rightarrow> bool" where
  "py_isspace c = ((of_char c :: nat) \<in> {9, 10, 11, 12, 13, 32, 133, 160})"

definition py_strip :: "string \<Rightarrow> string" where
  "py_strip s = rev (dropWhile py_isspace (rev (dropWhile py_isspace s)))"

text \<open>
  The digits of a decimal literal: a digit, then digits each preceded by at most one
  underscore. \<open>digits_value acc s\<close> reads the rest of the literal after a digit.
\<close>

fun digits_value :: "nat \<Rightarrow> string \<Rightarrow> nat option" where
  "digits_value acc [] = Some acc"
| "digits_value acc [c] =
     (if is_digit c then Some (10 * acc + digit_val c) else None)"
| "digits_value acc (c # d # cs) =
     (if is_digit c then digits_value (10 * acc + digit_val c) (d # cs)
      else if c = CHR ''_'' \<and> is_digit d then digits_value (10 * acc + digit_val d) cs
      else None)"

definition py_digits :: "string \<Rightarrow> nat option" where
  "py_digits s =
     (case s of
        [] \<Rightarrow> None
      | c # cs \<Rightarrow> if is_digit c then digits_value (digit_val c) cs else None)"

text \<open>
  \<open>int(s)\<close> in base 10: white space stripped on both sides, an optional sign, the
  digits. \<open>None\<close> is the \<open>ValueError\<close>.
\<close>

definition py_int :: "string \<Rightarrow> int option" where
  "py_int s =
     (case py_strip s of
        [] \<Rightarrow> None
      | c # cs \<Rightarrow>
          if c = CHR ''+'' then map_option int (py_digits cs)
          else if c = CHR ''-'' then map_option (\<lambda>n. - int n) (py_digits cs)
          else map_option int (py_digits (c # cs)))"

text \<open>
  \<open>s.split(sep)\<close> for a one-character separator: the pieces between the separators,
  never an empty list.
\<close>

fun py_split :: "char \<Rightarrow> string \<Rightarrow> string list" where
  "py_split sep [] = [[]]"
| "py_split sep (c # cs) =
     (if c = sep then [] # py_split sep cs
      else (case py_split sep cs of
              [] \<Rightarrow> [[c]]
            | p # ps \<Rightarrow> (c # p) # ps))"

text \<open>\<open>s[-n:]\<close>: the last \<open>n\<close> characters, all of \<open>s\<close> when it is shorter.\<close>

definition last_chars :: "nat \<Rightarrow> string \<Rightarrow> string" where
  "last_chars n s = drop (length s - n) s"

text \<open>
  \<open>$\<close> (without the multiline flag) matches at the end of the string and just before
  a line feed that ends the string: \<open>chop_newline\<close> gives the part of the string in
  front of the place where a pattern that ends with \<open>v$\<close> must end.
\<close>

definition chop_newline :: "string \<Rightarrow> string" where
  "chop_newline s = (if s \<noteq> [] \<and> last s = CHR 0x0A then butlast s else s)"

text \<open>
  \<open>re.search(r'(\d{4})\.csv$', s)\<close>: the group, when the pattern matches. The pattern
  ends with \<open>$\<close>, so a match ends where \<open>chop_newline\<close> says and its place is unique.
\<close>

definition search_year_csv :: "string \<Rightarrow> string option" where
  "search_year_csv s =
     (let t = chop_newline s;
          g = take 4 (last_chars 8 t)
      in if 8 \<le> length t \<and> last_chars 4 t = ''.csv'' \<and> list_all is_digit g
         then Some g else None)"

subsection \<open>\<open>extract_year_from_path\<close>\<close>

text \<open>
  The fallback's text, \<open>file_path.split('/')[-1].split('.')[0][-4:]\<close>; \<open>None\<close> is the
  \<open>IndexError\<close> of an index into an empty list.
\<close>

definition fallback_year_str :: "string \<Rightarrow> string option" where
  "fallback_year_str file_path =
     (case py_split CHR ''/'' file_path of
        [] \<Rightarrow> None
      | seg # segs \<Rightarrow>
          (case py_split CHR ''.'' (last (seg # segs)) of
             [] \<Rightarrow> None
           | stem # exts \<Rightarrow> Some (last_chars 4 stem)))"

text \<open>
  \<open>None\<close> is the value the source returns after it has caught \<open>ValueError\<close> or
  \<open>IndexError\<close>; no other exception can come out of the body on a string.
\<close>

definition extract_year_from_path :: "string \<Rightarrow> int option" where
  "extract_year_from_path file_path =
     (case search_year_csv file_path of
        Some g \<Rightarrow> py_int g
      | None \<Rightarrow>
          (case fallback_year_str file_path of
             None \<Rightarrow> None
           | Some year_str \<Rightarrow> py_int year_str))"

section \<open>Batches\<close>

text \<open>
  A cell of a batch is what \<open>pandas.read_csv\<close> can put there: a string, an integer, a
  float (finite, an infinity with its sign, or NaN, which is also the missing value) or
  a truth value. Finite floats are written as the rationals they are; the bounds and
  the rounding of 64-bit numbers are left out of the model.
\<close>

datatype cell =
    StrCell string
  | IntCell int
  | FloatCell rat
  | InfCell bool
  | NaNCell
  | BoolCell bool

text \<open>
  A batch: the column labels in order and the rows in order, each row with its index
  label and its cells. \<open>wf_df\<close> says that the batch is a rectangle, as every
  \<open>DataFrame\<close> is.
\<close>

record dataframe =
  columns :: "string list"
  rows :: "(nat \<times> cell list) list"

definition wf_df :: "dataframe \<Rightarrow> bool" where
  "wf_df df = list_all (\<lambda>r. length (snd r) = length (columns df)) (rows df)"

text \<open>\<open>pd.DataFrame()\<close> and \<open>df.empty\<close> (an axis of length zero).\<close>

definition pd_DataFrame :: dataframe where
  "pd_DataFrame = \<lparr>columns = [], rows = []\<rparr>"

definition empty_df :: "dataframe \<Rightarrow> bool" where
  "empty_df df = (columns df = [] \<or> rows df = [])"

text \<open>The exceptions of the program, by class.\<close>

datatype py_exception =
    FileNotFoundError
  | OperationalError string
  | TypeError
  | IntCastingNaNError
  | OtherException string

subsection \<open>\<open>load_data\<close>\<close>

text \<open>
  \<open>read_csv\<close> stands for \<open>pd.read_csv(file_path, encoding='latin1', sep=';')\<close> on the
  file system of the run: the batch it parses, or the exception it raises.
\<close>

definition load_data :: "(string \<Rightarrow> py_exception + dataframe) \<Rightarrow> string \<Rightarrow> dataframe" where
  "load_data read_csv file_path =
     (case read_csv file_path of
        Inr df \<Rightarrow> df
      | Inl FileNotFoundError \<Rightarrow> pd_DataFrame
      | Inl e \<Rightarrow> pd_DataFrame)"

subsection \<open>\<open>preprocess_data\<close>\<close>

text \<open>\<open>int(x)\<close> on a float and \<open>astype(int)\<close>: the fraction is cut off, towards zero.\<close>

definition trunc_int :: "rat \<Rightarrow> int" where
  "trunc_int x = (if 0 \<le> x then \<lfloor>x\<rfloor> else \<lceil>x\<rceil>)"

text \<open>
  \<open>allowed_stars = int(num_columns * threshold)\<close>; the product is taken exactly,
  which is what the float product is at the default threshold \<open>0.5\<close>.
\<close>

definition allowed_stars :: "nat \<Rightarrow> rat \<Rightarrow> int" where
  "allowed_stars num_columns threshold = trunc_int (of_nat num_columns * threshold)"

text \<open>\<open>(x == '*').sum()\<close> on the cells \<open>x\<close> of a row.\<close>

definition count_stars :: "cell list \<Rightarrow> nat" where
  "count_stars x = length (filter (\<lambda>c. c = StrCell ''*'') x)"

definition keep_row :: "int \<Rightarrow> nat \<times> cell list \<Rightarrow> bool" where
  "keep_row allowed r = (int (count_stars (snd r)) \<le> allowed)"

definition column_mapping :: "(string \<times> string) list" where
  "column_mapping =
     [(''PERTE'', ''PERTENENCIA_ESTABLECIMIENTO_SALUD''),
      (''SEXO_PERSONA'', ''SEXO''),
      (''EDAD_GRUPO'', ''GRUPO_EDAD''),
      (''GRUPOS_ETAREOS'', ''ETNIA''),
      (''GLOSA_PAIS_ORIGEN'', ''GLOSA_PAIS_ORIGEN''),
      (''COMUNA_RESIDENCIA'', ''COMUNA_RESIDENCIA''),
      (''GLOSA_COMUNA_RESIDENCIA'', ''GLOSA_COMUNA_RESIDENCIA''),
      (''REGION_RESIDENCIA'', ''REGION_RESIDENCIA''),
      (''GLOSA_REGION_RESIDENCIA'', ''GLOSA_REGION_RESIDENCIA''),
      (''PREVISION'', ''PREVISION''),
      (''GLOSA_PREVISION'', ''GLOSA_PREVISION''),
      (''ANO_EGRESO'', ''ANO_EGRESO''),
      (''DIAG1'', ''DIAG1''),
      (''DIAG2'', ''DIAG2''),
      (''DIAS_ESTADIA'', ''DIAS_ESTADA''),
      (''CONDICION_EGRESO'', ''CONDICION_EGRESO''),
      (''INTERV_Q'', ''INTERV_Q''),
      (''PROCED'', ''PROCED'')]"

text \<open>The entries of the mapping whose key is a column of the batch.\<close>

definition valid_column_mapping :: "string list \<Rightarrow> (string \<times> string) list" where
  "valid_column_mapping cols = filter (\<lambda>kv. fst kv \<in> set cols) column_mapping"

text \<open>
  \<open>rename(columns=m)\<close>: every label that is a key of \<open>m\<close> is replaced by its value, the
  others stay.
\<close>

definition rename_with :: "(string \<times> string) list \<Rightarrow> string list \<Rightarrow> string list" where
  "rename_with m cols = map (\<lambda>c. case map_of m c of Some v \<Rightarrow> v | None \<Rightarrow> c) cols"

definition rename_columns :: "string list \<Rightarrow> string list" where
  "rename_columns cols = rename_with (valid_column_mapping cols) cols"

text \<open>What the renaming makes of one label.\<close>

definition rename_label :: "string \<Rightarrow> string" where
  "rename_label c = (case map_of column_mapping c of Some v \<Rightarrow> v | None \<Rightarrow> c)"

definition int_columns_to_convert :: "string list" where
  "int_columns_to_convert =
     [''COMUNA_RESIDENCIA'', ''REGION_RESIDENCIA'', ''ANO_EGRESO'', ''DIAS_ESTADA'']"

text \<open>
  What \<open>pd.to_numeric(..., errors='coerce')\<close> makes of a value: a finite number, an
  infinity, or NaN when the value is not a number. How pandas reads a number in a
  string is not part of this program: \<open>str_to_numeric\<close> stands for it.
\<close>

datatype numeric = Finite rat | NonFinite | NotANumber

fun to_numeric_coerce :: "(string \<Rightarrow> numeric) \<Rightarrow> cell \<Rightarrow> numeric" where
  "to_numeric_coerce str_to_numeric (StrCell s) = str_to_numeric s"
| "to_numeric_coerce str_to_numeric (IntCell i) = Finite (of_int i)"
| "to_numeric_coerce str_to_numeric (FloatCell q) = Finite q"
| "to_numeric_coerce str_to_numeric (InfCell b) = NonFinite"
| "to_numeric_coerce str_to_numeric NaNCell = NotANumber"
| "to_numeric_coerce str_to_numeric (BoolCell b) = Finite (if b then 1 else 0)"

text \<open>\<open>fillna(0)\<close> on one value.\<close>

fun fillna0 :: "numeric \<Rightarrow> numeric" where
  "fillna0 NotANumber = Finite 0"
| "fillna0 v = v"

text \<open>
  \<open>astype(int)\<close> on a column: it raises when a value is not finite, and cuts the
  fraction of every value otherwise.
\<close>

fun is_finite :: "numeric \<Rightarrow> bool" where
  "is_finite (Finite q) = True"
| "is_finite v = False"

fun int_of_numeric :: "numeric \<Rightarrow> cell" where
  "int_of_numeric (Finite q) = IntCell (trunc_int q)"
| "int_of_numeric v = NaNCell"

definition astype_int :: "numeric list \<Rightarrow> py_exception + cell list" where
  "astype_int vs =
     (if list_all is_finite vs then Inr (map int_of_numeric vs) else Inl IntCastingNaNError)"

text \<open>The place of the first column with a label.\<close>

fun position :: "'a \<Rightarrow> 'a list \<Rightarrow> nat" where
  "position x [] = 0"
| "position x (y # ys) = (if x = y then 0 else Suc (position x ys))"

definition column_values :: "nat \<Rightarrow> dataframe \<Rightarrow> cell list" where
  "column_values j df = map (\<lambda>r. snd r ! j) (rows df)"

definition set_column :: "nat \<Rightarrow> cell list \<Rightarrow> dataframe \<Rightarrow> dataframe" where
  "set_column j vs df = df\<lparr>rows := map2 (\<lambda>r v. (fst r, (snd r)[j := v])) (rows df) vs\<rparr>"

text \<open>
  The body of the conversion loop, which is run for a label \<open>col\<close> that is among the
  columns. When the label is on more than one column, \<open>cleaned_df[col]\<close> is a \<open>DataFrame\<close>, and
  \<open>pd.to_numeric\<close> raises \<open>TypeError\<close> on it.
\<close>

definition convert_column ::
  "(string \<Rightarrow> numeric) \<Rightarrow> string \<Rightarrow> dataframe \<Rightarrow> py_exception + dataframe" where
  "convert_column str_to_numeric col df =
     (if count_list (columns df) col \<noteq> 1 then Inl TypeError
      else
        (let j = position col (columns df) in
         case astype_int (map (\<lambda>c. fillna0 (to_numeric_coerce str_to_numeric c))
                            (column_values j df)) of
           Inl e \<Rightarrow> Inl e
         | Inr ints \<Rightarrow> Inr (set_column j ints df)))"

fun convert_columns ::
  "(string \<Rightarrow> numeric) \<Rightarrow> string list \<Rightarrow> dataframe \<Rightarrow> py_exception + dataframe" where
  "convert_columns str_to_numeric [] df = Inr df"
| "convert_columns str_to_numeric (col # cols) df =
     (if col \<in> set (columns df) then
        (case convert_column str_to_numeric col df of
           Inl e \<Rightarrow> Inl e
         | Inr df' \<Rightarrow> convert_columns str_to_numeric cols df')
      else convert_columns str_to_numeric cols df)"

text \<open>
  What the three steps \<open>to_numeric\<close>, \<open>fillna(0)\<close>, \<open>astype(int)\<close> make of one cell
  when they succeed, and of a row of a batch with the given labels when the columns
  \<open>cols\<close> are converted.
\<close>

definition coerce_cell :: "(string \<Rightarrow> numeric) \<Rightarrow> cell \<Rightarrow> cell" where
  "coerce_cell str_to_numeric c = int_of_numeric (fillna0 (to_numeric_coerce str_to_numeric c))"

definition coerce_row ::
  "(string \<Rightarrow> numeric) \<Rightarrow> string list \<Rightarrow> string list \<Rightarrow> cell list \<Rightarrow> cell list" where
  "coerce_row str_to_numeric cols labels cs =
     map2 (\<lambda>l c. if l \<in> set cols then coerce_cell str_to_numeric c else c) labels cs"

text \<open>The row filter and the renaming, the two steps before the conversion.\<close>

definition filter_rows :: "dataframe \<Rightarrow> rat \<Rightarrow> dataframe" where
  "filter_rows df threshold =
     (let num_columns = length (columns df);
          allowed = allowed_stars num_columns threshold
      in df\<lparr>rows := filter (keep_row allowed) (rows df)\<rparr>)"

definition rename_df :: "dataframe \<Rightarrow> dataframe" where
  "rename_df df = df\<lparr>columns := rename_columns (columns df)\<rparr>"

text \<open>\<open>Inl\<close> is an exception that leaves \<open>preprocess_data\<close>: the function catches none.\<close>

definition preprocess_data ::
  "(string \<Rightarrow> numeric) \<Rightarrow> dataframe \<Rightarrow> rat \<Rightarrow> py_exception + dataframe" where
  "preprocess_data str_to_numeric df threshold =
     (if empty_df df then Inr df
      else
        (let cleaned_df = filter_rows df threshold;
             cleaned_df = rename_df cleaned_df
         in convert_columns str_to_numeric int_columns_to_convert cleaned_df))"

definition default_threshold :: rat where
  "default_threshold = 1 / 2"

section \<open>The database and the driver\<close>

text \<open>
  The database is outside the program. \<open>'db\<close> is a state of it, and an engine is what
  the two statements of the program do on a state:
  \<^item> \<open>select_year db t y\<close> is \<open>SELECT 1 FROM t WHERE ANO_EGRESO = y LIMIT 1\<close>, the rows
    of its result or the exception raised while connecting or executing;
  \<^item> \<open>to_sql_append df db t\<close> is \<open>df.to_sql(name=t, con=engine, if_exists='append',
    index=False)\<close>, the exception it raised, if any, and the state it left.
\<close>

record 'db engine =
  select_year :: "'db \<Rightarrow> string \<Rightarrow> int \<Rightarrow> py_exception + cell list list"
  to_sql_append :: "dataframe \<Rightarrow> 'db \<Rightarrow> string \<Rightarrow> py_exception option \<times> 'db"

text \<open>\<open>exists = result.fetchone() is not None\<close>: the result has a row.\<close>

definition data_already_exist :: "'db engine \<Rightarrow> 'db \<Rightarrow> string \<Rightarrow> int option \<Rightarrow> bool" where
  "data_already_exist engine db table_name year =
     (case year of
        None \<Rightarrow> False
      | Some y \<Rightarrow>
          (case select_year engine db table_name y of
             Inr result \<Rightarrow> result \<noteq> []
           | Inl (OperationalError msg) \<Rightarrow> False
           | Inl e \<Rightarrow> False))"




definition table_name :: string where
  "table_name = ''egresos_pacientes''"

text \<open>
  The state of a run: the database, the calls of \<open>load_data\<close>, \<open>preprocess_data\<close> and
  \<open>save_to_database\<close> made so far, each with the path of the file it was made for, the
  flag of the driver, and the exception that has ended the run, if one has.
\<close>

datatype call = Loaded string | Preprocessed string | Persisted string

record 'db run_state =
  db :: 'db
  calls :: "call list"
  processed_any_file :: bool
  uncaught :: "py_exception option"




section \<open>A store, files and batches for the examples\<close>

text \<open>
  The examples read a string as a number when \<open>int()\<close> does. pandas reads more strings
  as numbers; the theorems are about every reading.
\<close>

definition plain_integers :: "string \<Rightarrow> numeric" where
  "plain_integers s = (case py_int s of Some i \<Rightarrow> Finite (of_int i) | None \<Rightarrow> NotANumber)"

text \<open>
  The batch of the end-to-end scenario: four columns, a row with two sentinel cells
  and a row with three.
\<close>

definition scenario_batch :: dataframe where
  "scenario_batch =
     \<lparr>columns = [''PERTE'', ''SEXO_PERSONA'', ''ANO_EGRESO'', ''DIAS_ESTADIA''],
      rows = [(0, [StrCell ''*'', StrCell ''*'', IntCell 2019, StrCell ''12'']),
              (1, [StrCell ''*'', StrCell ''*'', IntCell 2019, StrCell ''*''])]\<rparr>"

definition scenario_cleaned :: dataframe where
  "scenario_cleaned =
     \<lparr>columns = [''PERTENENCIA_ESTABLECIMIENTO_SALUD'', ''SEXO'', ''ANO_EGRESO'', ''DIAS_ESTADA''],
      rows = [(0, [StrCell ''*'', StrCell ''*'', IntCell 2019, IntCell 12])]\<rparr>"

text \<open>A batch with a missing value and a text in the length-of-stay column.\<close>

definition untidy_batch :: dataframe where
  "untidy_batch =
     \<lparr>columns = [''SEXO'', ''DIAS_ESTADA''],
      rows = [(0, [StrCell ''M'', StrCell ''abc'']),
              (1, [StrCell ''F'', NaNCell]),
              (2, [StrCell ''F'', FloatCell (7 / 2)])]\<rparr>"

definition untidy_cleaned :: dataframe where
  "untidy_cleaned =
     \<lparr>columns = [''SEXO'', ''DIAS_ESTADA''],
      rows = [(0, [StrCell ''M'', IntCell 0]),
              (1, [StrCell ''F'', IntCell 0]),
              (2, [StrCell ''F'', IntCell 3])]\<rparr>"

text \<open>
  A batch whose header has the length of stay under both spellings: the renaming
  gives two columns the label \<open>DIAS_ESTADA\<close>.
\<close>

definition both_spellings_batch :: dataframe where
  "both_spellings_batch =
     \<lparr>columns = [''DIAS_ESTADIA'', ''DIAS_ESTADA''],
      rows = [(0, [StrCell ''abc'', IntCell 3])]\<rparr>"


text \<open>
  A store in memory: the tables by name, each with its columns and rows. It appends a
  batch to a table of the same columns and creates a table that is missing; the query
  fails on a missing table or column as SQLite does.
\<close>

record sql_table =
  tcolumns :: "string list"
  trows :: "cell list list"

definition mem_select_year ::
  "(string \<times> sql_table) list \<Rightarrow> string \<Rightarrow> int \<Rightarrow> py_exception + cell list list" where
  "mem_select_year d name y =
     (case map_of d name of
        None \<Rightarrow> Inl (OperationalError (''no such table: '' @ name))
      | Some t \<Rightarrow>
          if ''ANO_EGRESO'' \<notin> set (tcolumns t)
          then Inl (OperationalError ''no such column: ANO_EGRESO'')
          else Inr (map (\<lambda>r. [IntCell 1])
                 (take 1 (filter (\<lambda>r. r ! position ''ANO_EGRESO'' (tcolumns t) = IntCell y)
                            (trows t)))))"

definition mem_to_sql ::
  "dataframe \<Rightarrow> (string \<times> sql_table) list \<Rightarrow> string \<Rightarrow>
   py_exception option \<times> (string \<times> sql_table) list" where
  "mem_to_sql df d name =
     (case map_of d name of
        None \<Rightarrow> (None, d @ [(name, \<lparr>tcolumns = columns df, trows = map snd (rows df)\<rparr>)])
      | Some t \<Rightarrow>
          if columns df = tcolumns t
          then (None, map (\<lambda>nt. if fst nt = name
                                 then (name, (snd nt)\<lparr>trows := trows (snd nt) @ map snd (rows df)\<rparr>)
                                 else nt) d)
          else (Some (OperationalError ''table has no such column''), d))"

definition mem_engine :: "(string \<times> sql_table) list engine" where
  "mem_engine = \<lparr>select_year = mem_select_year, to_sql_append = mem_to_sql\<rparr>"

text \<open>The number of rows of a table of the store with a given year.\<close>

definition year_count :: "(string \<times> sql_table) list \<Rightarrow> string \<Rightarrow> int \<Rightarrow> nat" where
  "year_count d name y =
     (case map_of d name of
        None \<Rightarrow> 0
      | Some t \<Rightarrow>
          length (filter (\<lambda>r. r ! position ''ANO_EGRESO'' (tcolumns t) = IntCell y) (trows t)))"

text \<open>
  A run with two files. The store has one row of 2018 and none of 2019, and the file
  named for 2019 holds a row whose year is 2018.
\<close>

definition store_2018 :: "(string \<times> sql_table) list" where
  "store_2018 =
     [(''egresos_pacientes'', \<lparr>tcolumns = [''ANO_EGRESO''], trows = [[IntCell 2018]]\<rparr>)]"


definition two_files_read_csv :: "string \<Rightarrow> py_exception + dataframe" where
  "two_files_read_csv file_path =
     (if file_path = ''data/EGRE_DATOS_ABIERTOS_2019.csv''
      then Inr \<lparr>columns = [''ANO_EGRESO''], rows = [(0, [IntCell 2018])]\<rparr>
      else if file_path = ''data/EGRE_DATOS_ABIERTOS_2018.csv''
      then Inr \<lparr>columns = [''ANO_EGRESO''], rows = [(0, [IntCell 2018])]\<rparr>
      else Inl FileNotFoundError)"

section \<open>The year extractor\<close>

lemma py_split_nonempty: "py_split sep s \<noteq> []"
  by (induction s) (auto split: list.splits)

lemma is_digit_not_space: "is_digit c \<Longrightarrow> \<not> py_isspace c"
  by (auto simp: is_digit_def py_isspace_def)

lemma is_digit_not_sign:
  "is_digit c \<Longrightarrow> c \<noteq> CHR ''+'' \<and> c \<noteq> CHR ''-'' \<and> c \<noteq> CHR ''_''"
  by (auto simp: is_digit_def)

lemma py_int_four_digits:
  assumes "is_digit d1" "is_digit d2" "is_digit d3" "is_digit d4"
  shows "py_int [d1, d2, d3, d4] =
     Some (int (1000 * digit_val d1 + 100 * digit_val d2 + 10 * digit_val d3 + digit_val d4))"
  using assms
  by (simp add: py_int_def py_strip_def py_digits_def is_digit_not_space is_digit_not_sign)

lemma search_year_csv_suffix:
  assumes "length ds = 4" "list_all is_digit ds"
  shows "search_year_csv (pre @ ds @ ''.csv'') = Some ds"
  using assms by (simp add: search_year_csv_def chop_newline_def last_chars_def)

text \<open>
  The \<open>int()\<close> of the first branch of \<open>extract_year_from_path\<close> is outside the \<open>try\<close>;
  it is applied to four digits and cannot fail.
\<close>

lemma matched_group_is_int:
  assumes "search_year_csv p = Some g"
  shows "\<exists>n. py_int g = Some n"
proof -
  from assms have len: "length g = 4" and dig: "list_all is_digit g"
    by (auto simp: search_year_csv_def last_chars_def Let_def split: if_splits)
  from len obtain d1 d2 d3 d4 where g: "g = [d1, d2, d3, d4]"
    by (auto simp: length_Suc_conv numeral_eq_Suc)
  from dig have "is_digit d1" "is_digit d2" "is_digit d3" "is_digit d4"
    unfolding g by simp_all
  from py_int_four_digits [OF this] show ?thesis unfolding g by blast
qed

text \<open>
  C4. A path that ends with the file name \<open>EGRE_DATOS_ABIERTOS_\<close>, four decimal digits
  and \<open>.csv\<close>, after any directory part, gives the year those four digits write in
  base ten.
\<close>

theorem extract_year_matching_name:
  assumes "is_digit d1" "is_digit d2" "is_digit d3" "is_digit d4"
  shows "extract_year_from_path (dir @ ''EGRE_DATOS_ABIERTOS_'' @ [d1, d2, d3, d4] @ ''.csv'') =
     Some (int (1000 * digit_val d1 + 100 * digit_val d2 + 10 * digit_val d3 + digit_val d4))"
proof -
  have "search_year_csv ((dir @ ''EGRE_DATOS_ABIERTOS_'') @ [d1, d2, d3, d4] @ ''.csv'') =
      Some [d1, d2, d3, d4]"
    using assms by (intro search_year_csv_suffix) simp_all
  then show ?thesis
    using py_int_four_digits [OF assms] by (simp add: extract_year_from_path_def)
qed

theorem extract_year_matching_name_witness:
  "is_digit CHR ''2'' \<and> is_digit CHR ''0'' \<and> is_digit CHR ''1'' \<and> is_digit CHR ''9'' \<and>
   extract_year_from_path ''data/EGRE_DATOS_ABIERTOS_2019.csv'' = Some 2019"
proof -
  have d: "is_digit CHR ''2''" "is_digit CHR ''0''" "is_digit CHR ''1''" "is_digit CHR ''9''"
    by (simp_all add: is_digit_def)
  from extract_year_matching_name [OF d, of "''data/''"] d show ?thesis
    by (simp add: digit_val_def)
qed

lemma search_year_csv_SomeI:
  assumes "chop_newline p = pre @ ds @ ''.csv''" "length ds = 4" "list_all is_digit ds"
  shows "search_year_csv p = Some ds"
  using assms by (simp add: search_year_csv_def last_chars_def)

lemma search_year_csv_SomeD:
  assumes "search_year_csv p = Some g"
  shows "\<exists>pre. chop_newline p = pre @ g @ ''.csv'' \<and> length g = 4 \<and> list_all is_digit g"
proof -
  define t where "t = chop_newline p"
  from assms have len: "8 \<le> length t"
    and ext: "drop (length t - 4) t = ''.csv''"
    and g: "g = take 4 (drop (length t - 8) t)"
    and dig: "list_all is_digit g"
    by (auto simp: search_year_csv_def last_chars_def t_def Let_def split: if_splits)
  have "t = take (length t - 8) t @ drop (length t - 8) t" by simp
  also have "drop (length t - 8) t = g @ drop 4 (drop (length t - 8) t)"
    unfolding g by (simp only: append_take_drop_id)
  also have "drop 4 (drop (length t - 8) t) = drop (length t - 4) t"
    using len by (simp add: add.commute)
  finally have "t = take (length t - 8) t @ g @ ''.csv''"
    using ext by simp
  moreover have "length g = 4" using len unfolding g by simp
  ultimately show ?thesis using dig unfolding t_def by blast
qed

lemma search_year_csv_None_iff:
  "search_year_csv p = None \<longleftrightarrow>
     \<not> (\<exists>pre ds. chop_newline p = pre @ ds @ ''.csv'' \<and> length ds = 4 \<and> list_all is_digit ds)"
  using search_year_csv_SomeI search_year_csv_SomeD
  by (metis option.distinct(1) option.exhaust)

lemma fallback_year_str_total: "\<exists>year_str. fallback_year_str p = Some year_str"
  using py_split_nonempty [of "CHR ''/''" p]
  by (auto simp: fallback_year_str_def py_split_nonempty split: list.splits)

lemma py_digits_has_digit: "py_digits s = Some n \<Longrightarrow> \<exists>c\<in>set s. is_digit c"
  by (auto simp: py_digits_def split: list.splits if_splits)

lemma set_py_strip: "set (py_strip s) \<subseteq> set s"
proof
  fix x assume "x \<in> set (py_strip s)"
  then have "x \<in> set (dropWhile py_isspace (rev (dropWhile py_isspace s)))"
    by (simp add: py_strip_def)
  then have "x \<in> set (dropWhile py_isspace s)"
    using set_dropWhileD by fastforce
  then show "x \<in> set s" by (rule set_dropWhileD)
qed

lemma py_int_has_digit:
  assumes "py_int s = Some n"
  shows "\<exists>c\<in>set s. is_digit c"
proof -
  from assms obtain c cs where st: "py_strip s = c # cs"
    by (auto simp: py_int_def split: list.splits)
  with assms have "(\<exists>m. py_digits cs = Some m) \<or> (\<exists>m. py_digits (c # cs) = Some m)"
    by (auto simp: py_int_def split: if_splits)
  then have "\<exists>d\<in>set (c # cs). is_digit d"
    using py_digits_has_digit by fastforce
  then show ?thesis using set_py_strip [of s] st by auto
qed

text \<open>
  C5, as amended. A path on which the pattern does not match (it does not end with
  four digits and \<open>.csv\<close>, a single final line feed aside) is read by the fallback,
  which never raises: the result is what \<open>int()\<close> makes of the last four characters
  of the last path segment cut at its first dot, so it is \<open>None\<close> exactly when those
  characters are not an integer literal, and in particular when none of them is a digit.
\<close>

theorem extract_year_fallback:
  assumes "\<not> (\<exists>pre ds. chop_newline p = pre @ ds @ ''.csv'' \<and> length ds = 4 \<and> list_all is_digit ds)"
  shows "\<exists>year_str. fallback_year_str p = Some year_str \<and>
           extract_year_from_path p = py_int year_str \<and>
           ((\<forall>c\<in>set year_str. \<not> is_digit c) \<longrightarrow> extract_year_from_path p = None)"
proof -
  from assms have no: "search_year_csv p = None"
    by (simp add: search_year_csv_None_iff)
  obtain ys where ys: "fallback_year_str p = Some ys"
    using fallback_year_str_total by blast
  have ex: "extract_year_from_path p = py_int ys"
    using no ys by (simp add: extract_year_from_path_def)
  have "(\<forall>c\<in>set ys. \<not> is_digit c) \<longrightarrow> py_int ys = None"
    using py_int_has_digit by (cases "py_int ys") auto
  with ys ex show ?thesis by simp
qed

theorem extract_year_fallback_witness:
  "fallback_year_str ''data/report.txt'' = Some ''port'' \<and>
   extract_year_from_path ''data/report.txt'' = None"
proof -
  have no: "search_year_csv ''data/report.txt'' = None"
    by (simp add: search_year_csv_def chop_newline_def last_chars_def)
  have fb: "fallback_year_str ''data/report.txt'' = Some ''port''"
    by (simp add: fallback_year_str_def last_chars_def)
  have nd: "\<forall>c\<in>set ''port''. \<not> is_digit c"
    by (simp add: is_digit_def)
  have "\<not> (\<exists>pre ds. chop_newline ''data/report.txt'' = pre @ ds @ ''.csv'' \<and>
      length ds = 4 \<and> list_all is_digit ds)"
    using no unfolding search_year_csv_None_iff .
  from extract_year_fallback [OF this] fb nd show ?thesis by auto
qed

text \<open>
  C5, as stated, fails: \<open>2018.txt\<close> does not end with \<open>.csv\<close>, and the fallback reads
  the year 2018 from it.
\<close>

theorem fallback_reads_year_of_txt:
  "\<not> suffix ''.csv'' ''2018.txt'' \<and> extract_year_from_path ''2018.txt'' = Some 2018"
  by (simp add: suffix_to_prefix extract_year_from_path_def search_year_csv_def chop_newline_def
      last_chars_def fallback_year_str_def py_int_def py_strip_def py_isspace_def py_digits_def
      is_digit_def digit_val_def)

section \<open>The preprocessor\<close>

subsection \<open>The conversion loop in closed form\<close>

lemma astype_int_Inr:
  assumes "astype_int (map (\<lambda>c. fillna0 (to_numeric_coerce p c)) cs) = Inr ints"
  shows "ints = map (coerce_cell p) cs"
  using assms by (auto simp: astype_int_def coerce_cell_def split: if_splits)

lemma fillna0_finite: "is_finite (fillna0 v) \<longleftrightarrow> v \<noteq> NonFinite"
  by (cases v) simp_all

lemma astype_int_Inl:
  "astype_int (map (\<lambda>c. fillna0 (to_numeric_coerce p c)) cs) = Inl e \<longleftrightarrow>
     e = IntCastingNaNError \<and> (\<exists>c\<in>set cs. to_numeric_coerce p c = NonFinite)"
  by (auto simp: astype_int_def list_all_iff fillna0_finite)

lemma map2_map_same: "map2 f xs (map g xs) = map (\<lambda>x. f x (g x)) xs"
  by (induction xs) simp_all

lemma convert_column_Inr:
  assumes "convert_column p col df = Inr df'"
  shows "count_list (columns df) col = 1"
    and "df' = df\<lparr>rows := map (\<lambda>r. (fst r, (snd r)[position col (columns df) :=
            coerce_cell p (snd r ! position col (columns df))])) (rows df)\<rparr>"
proof -
  show c: "count_list (columns df) col = 1"
    using assms by (auto simp: convert_column_def split: if_splits)
  from assms c obtain ints where
    a: "astype_int (map (\<lambda>c. fillna0 (to_numeric_coerce p c))
          (column_values (position col (columns df)) df)) = Inr ints"
    and d: "df' = set_column (position col (columns df)) ints df"
    by (auto simp: convert_column_def Let_def split: sum.splits)
  from astype_int_Inr [OF a] d show "df' = df\<lparr>rows := map (\<lambda>r. (fst r, (snd r)[position col (columns df) :=
            coerce_cell p (snd r ! position col (columns df))])) (rows df)\<rparr>"
    by (simp add: set_column_def column_values_def map2_map_same comp_def)
qed

lemma position_count_one:
  assumes "count_list xs x = 1"
  shows "position x xs < length xs \<and> xs ! position x xs = x \<and>
         (\<forall>i<length xs. xs ! i = x \<longrightarrow> i = position x xs)"
  using assms
proof (induction xs)
  case Nil
  then show ?case by simp
next
  case (Cons y ys)
  show ?case
  proof (cases "x = y")
    case True
    with Cons.prems have "count_list ys x = 0" by simp
    then have "x \<notin> set ys" by (simp add: count_list_0_iff)
    then have "\<forall>i<length (y # ys). (y # ys) ! i = x \<longrightarrow> i = 0"
      by (auto simp: nth_Cons split: nat.splits)
    with True show ?thesis by simp
  next
    case False
    with Cons.prems have "count_list ys x = 1" by simp
    from Cons.IH [OF this] False show ?thesis
      by (auto simp: nth_Cons split: nat.splits)
  qed
qed

lemma coerce_row_Nil: "length cs = length labels \<Longrightarrow> coerce_row p [] labels cs = cs"
  unfolding coerce_row_def by (induction labels cs rule: list_induct2') simp_all

lemma coerce_row_absent:
  assumes "col \<notin> set labels"
  shows "coerce_row p (col # cols) labels cs = coerce_row p cols labels cs"
  unfolding coerce_row_def using assms
  by (intro map_cong refl) (auto dest: set_zip_leftD)

lemma length_coerce_row: "length (coerce_row p cols labels cs) = min (length labels) (length cs)"
  by (simp add: coerce_row_def)

lemma nth_coerce_row:
  assumes "j < length labels" "j < length cs"
  shows "coerce_row p cols labels cs ! j =
     (if labels ! j \<in> set cols then coerce_cell p (cs ! j) else cs ! j)"
  using assms by (simp add: coerce_row_def)

lemma coerce_row_step:
  assumes len: "length cs = length labels"
    and one: "count_list labels col = 1"
    and new: "col \<notin> set cols"
  shows "coerce_row p cols labels (cs[position col labels := coerce_cell p (cs ! position col labels)]) =
         coerce_row p (col # cols) labels cs"
proof (rule nth_equalityI)
  show "length (coerce_row p cols labels (cs[position col labels := coerce_cell p (cs ! position col labels)])) =
        length (coerce_row p (col # cols) labels cs)"
    by (simp add: length_coerce_row)
next
  fix i
  assume "i < length (coerce_row p cols labels (cs[position col labels := coerce_cell p (cs ! position col labels)]))"
  then have i: "i < length labels" "i < length cs"
    using len by (simp_all add: length_coerce_row)
  note pos = position_count_one [OF one]
  show "coerce_row p cols labels (cs[position col labels := coerce_cell p (cs ! position col labels)]) ! i =
        coerce_row p (col # cols) labels cs ! i"
  proof (cases "i = position col labels")
    case True
    then show ?thesis using i pos new by (simp add: nth_coerce_row)
  next
    case False
    with pos i have "labels ! i \<noteq> col" by blast
    with False show ?thesis using i by (simp add: nth_coerce_row)
  qed
qed

lemma wf_df_rowD: "wf_df df \<Longrightarrow> r \<in> set (rows df) \<Longrightarrow> length (snd r) = length (columns df)"
  by (simp add: wf_df_def list_all_iff)

lemma convert_columns_Inr:
  assumes "convert_columns p cols df = Inr out" "wf_df df" "distinct cols"
  shows "out = df\<lparr>rows := map (\<lambda>r. (fst r, coerce_row p cols (columns df) (snd r))) (rows df)\<rparr>"
  using assms
proof (induction cols arbitrary: df)
  case Nil
  have "map (\<lambda>r. (fst r, coerce_row p [] (columns df) (snd r))) (rows df) = rows df"
    using wf_df_rowD [OF Nil.prems(2)] by (simp add: coerce_row_Nil map_idI)
  with Nil.prems(1) show ?case by simp
next
  case (Cons col cols)
  show ?case
  proof (cases "col \<in> set (columns df)")
    case False
    with Cons.prems have "convert_columns p cols df = Inr out" by simp
    from Cons.IH [OF this] Cons.prems False show ?thesis
      by (simp add: coerce_row_absent)
  next
    case True
    with Cons.prems(1) obtain df' where c: "convert_column p col df = Inr df'"
      and r: "convert_columns p cols df' = Inr out"
      by (auto split: sum.splits)
    note cc = convert_column_Inr [OF c]
    let ?j = "position col (columns df)"
    have cols': "columns df' = columns df" using cc(2) by simp
    have rows': "rows df' = map (\<lambda>r. (fst r, (snd r)[?j := coerce_cell p (snd r ! ?j)])) (rows df)"
      using cc(2) by simp
    have wf': "wf_df df'"
      using Cons.prems(2) by (simp add: wf_df_def list_all_iff cols' rows')
    from Cons.prems(3) have d: "distinct cols" and new: "col \<notin> set cols" by simp_all
    have "out = df'\<lparr>rows := map (\<lambda>r. (fst r, coerce_row p cols (columns df') (snd r))) (rows df')\<rparr>"
      by (rule Cons.IH [OF r wf' d])
    also have "\<dots> = df\<lparr>rows := map (\<lambda>r. (fst r, coerce_row p cols (columns df)
          ((snd r)[?j := coerce_cell p (snd r ! ?j)]))) (rows df)\<rparr>"
      using cc(2) by (simp add: comp_def)
    also have "map (\<lambda>r. (fst r, coerce_row p cols (columns df)
          ((snd r)[?j := coerce_cell p (snd r ! ?j)]))) (rows df) =
        map (\<lambda>r. (fst r, coerce_row p (col # cols) (columns df) (snd r))) (rows df)"
      using wf_df_rowD [OF Cons.prems(2)] cc(1) new
      by (intro map_cong refl) (simp add: coerce_row_step)
    finally show ?thesis .
  qed
qed

subsection \<open>What a returned batch is\<close>

lemma convert_columns_frame:
  assumes "convert_columns p cols df = Inr out"
  shows "columns out = columns df \<and> map fst (rows out) = map fst (rows df)"
  using assms
proof (induction cols arbitrary: df)
  case Nil
  then show ?case by simp
next
  case (Cons col cols)
  show ?case
  proof (cases "col \<in> set (columns df)")
    case False
    with Cons show ?thesis by simp
  next
    case True
    with Cons.prems obtain df' where c: "convert_column p col df = Inr df'"
      and r: "convert_columns p cols df' = Inr out"
      by (auto split: sum.splits)
    from convert_column_Inr(2) [OF c]
    have "columns df' = columns df" "map fst (rows df') = map fst (rows df)"
      by (simp_all add: comp_def)
    with Cons.IH [OF r] show ?thesis by simp
  qed
qed

lemma columns_filter_rows: "columns (filter_rows df t) = columns df"
  by (simp add: filter_rows_def)

lemma rows_filter_rows:
  "rows (filter_rows df t) = filter (keep_row (allowed_stars (length (columns df)) t)) (rows df)"
  by (simp add: filter_rows_def)

lemma preprocess_data_frame:
  assumes "preprocess_data p df t = Inr out" "\<not> empty_df df"
  shows "columns out = rename_columns (columns df)"
    and "map fst (rows out) =
         map fst (filter (keep_row (allowed_stars (length (columns df)) t)) (rows df))"
  using assms convert_columns_frame [of p int_columns_to_convert "rename_df (filter_rows df t)" out]
  by (simp_all add: preprocess_data_def rename_df_def columns_filter_rows rows_filter_rows)

lemma wf_df_prepared: "wf_df df \<Longrightarrow> wf_df (rename_df (filter_rows df t))"
  by (simp add: wf_df_def rename_df_def filter_rows_def list_all_iff rename_columns_def rename_with_def)

lemma distinct_int_columns: "distinct int_columns_to_convert"
  by (simp add: int_columns_to_convert_def)

lemma preprocess_data_Inr:
  assumes "preprocess_data p df t = Inr out" "\<not> empty_df df" "wf_df df"
  shows "rows out = map (\<lambda>r. (fst r, coerce_row p int_columns_to_convert
            (rename_columns (columns df)) (snd r)))
          (filter (keep_row (allowed_stars (length (columns df)) t)) (rows df))"
proof -
  from assms(1,2) have "convert_columns p int_columns_to_convert (rename_df (filter_rows df t)) = Inr out"
    by (simp add: preprocess_data_def)
  from convert_columns_Inr [OF this wf_df_prepared [OF assms(3)] distinct_int_columns]
  show ?thesis by (simp add: rename_df_def columns_filter_rows rows_filter_rows)
qed


subsection \<open>The renaming\<close>

lemma map_of_filter_key:
  "P k \<Longrightarrow> map_of (filter (\<lambda>kv. P (fst kv)) m) k = map_of m k"
  by (induction m) auto

lemma rename_columns_eq: "rename_columns cols = map rename_label cols"
  unfolding rename_columns_def rename_with_def valid_column_mapping_def rename_label_def
  by (intro map_cong refl) (simp add: map_of_filter_key [where P = "\<lambda>k. k \<in> set cols"])

lemma column_mapping_targets_fixed:
  "list_all (\<lambda>kv. rename_label (snd kv) = snd kv) column_mapping"
  by code_simp

lemma rename_label_idem: "rename_label (rename_label c) = rename_label c"
proof (cases "map_of column_mapping c")
  case None
  then show ?thesis by (simp add: rename_label_def)
next
  case (Some v)
  then have "(c, v) \<in> set column_mapping" by (rule map_of_SomeD)
  with column_mapping_targets_fixed have "rename_label v = v"
    unfolding list_all_iff by fastforce
  moreover from Some have "rename_label c = v" by (simp add: rename_label_def)
  ultimately show ?thesis by simp
qed

text \<open>
  C8. The renaming step is idempotent on every list of column labels: renaming the
  renamed labels changes nothing, since every target of the mapping is either not a
  key of it or mapped to itself.
\<close>

theorem rename_columns_idempotent:
  "rename_columns (rename_columns cols) = rename_columns cols"
  by (simp add: rename_columns_eq rename_label_idem)

subsection \<open>The row filter\<close>

lemma scenario_run:
  "preprocess_data plain_integers scenario_batch default_threshold = Inr scenario_cleaned"
  by code_simp




subsection \<open>The shape of the result\<close>

lemma length_rename_columns: "length (rename_columns cols) = length cols"
  by (simp add: rename_columns_eq)

text \<open>
  C9. A batch returned by \<open>preprocess_data\<close> has as many columns as the input and at
  most as many rows, and its rows are rows of the input in their order there: their
  index labels are those of a subsequence of the input's rows.
\<close>

theorem preprocess_shape:
  assumes "preprocess_data p df t = Inr out"
  shows "length (columns out) = length (columns df) \<and>
         length (rows out) \<le> length (rows df) \<and>
         (\<exists>kept. subseq kept (rows df) \<and> map fst (rows out) = map fst kept)"
proof (cases "empty_df df")
  case True
  with assms have "out = df" by (simp add: preprocess_data_def)
  then show ?thesis by auto
next
  case False
  let ?kept = "filter (keep_row (allowed_stars (length (columns df)) t)) (rows df)"
  note f = preprocess_data_frame [OF assms False]
  have "length (rows out) = length (map fst (rows out))" by simp
  also have "\<dots> = length ?kept" unfolding f(2) by simp
  also have "\<dots> \<le> length (rows df)" by (rule length_filter_le)
  finally have "length (rows out) \<le> length (rows df)" .
  moreover have "\<exists>kept. subseq kept (rows df) \<and> map fst (rows out) = map fst kept"
    using subseq_filter_left [of "keep_row (allowed_stars (length (columns df)) t)" "rows df"] f(2)
    by blast
  moreover have "length (columns out) = length (columns df)"
    using f(1) by (simp add: length_rename_columns)
  ultimately show ?thesis by blast
qed

theorem preprocess_shape_witness:
  "preprocess_data plain_integers scenario_batch default_threshold = Inr scenario_cleaned \<and>
   length (columns scenario_cleaned) = 4 \<and> length (rows scenario_cleaned) \<le> 2 \<and>
   subseq (map fst (rows scenario_cleaned)) [0, 1]"
proof -
  from preprocess_shape [OF scenario_run]
  obtain kept where k: "subseq kept (rows scenario_batch)"
    and m: "map fst (rows scenario_cleaned) = map fst kept"
    and l: "length (columns scenario_cleaned) = length (columns scenario_batch)"
       "length (rows scenario_cleaned) \<le> length (rows scenario_batch)"
    by blast
  from k have "subseq (map fst kept) (map fst (rows scenario_batch))"
    by (rule subseq_map)
  with m have "subseq (map fst (rows scenario_cleaned)) [0, 1]"
    by (simp add: scenario_batch_def)
  with l scenario_run show ?thesis by (simp add: scenario_batch_def)
qed

subsection \<open>The cells outside the converted columns\<close>

lemma list_all2_map_same:
  "(\<And>x. x \<in> set xs \<Longrightarrow> P (f x) x) \<Longrightarrow> list_all2 P (map f xs) xs"
  by (simp add: list_all2_map1 list_all2_same)

lemma allowed_stars_zero: "allowed_stars 0 t = 0"
  by (simp add: allowed_stars_def trunc_int_def)

text \<open>
  C10. In a batch returned by \<open>preprocess_data\<close> for a rectangular input, the rows are
  the kept rows of the input, one for one, and a cell of a column whose label in the
  result is not one of the four converted labels has the value it had in the input.
  The labels of the result are the renamed labels of the input (the labels of the
  input itself when the input is empty).
\<close>

theorem preprocess_other_cells:
  assumes "wf_df df" and "preprocess_data p df t = Inr out"
  shows "columns out = (if empty_df df then columns df else rename_columns (columns df)) \<and>
         list_all2 (\<lambda>ro ri. fst ro = fst ri \<and>
              (\<forall>j<length (columns out). columns out ! j \<notin> set int_columns_to_convert \<longrightarrow>
                 snd ro ! j = snd ri ! j))
           (rows out) (filter (keep_row (allowed_stars (length (columns df)) t)) (rows df))"
proof (cases "empty_df df")
  case True
  with assms(2) have out: "out = df" by (simp add: preprocess_data_def)
  have "filter (keep_row (allowed_stars (length (columns df)) t)) (rows df) = rows df"
  proof (cases "rows df = []")
    case True
    then show ?thesis by simp
  next
    case False
    with True have c: "columns df = []" by (simp add: empty_df_def)
    have "\<forall>r\<in>set (rows df). keep_row (allowed_stars (length (columns df)) t) r"
      using wf_df_rowD [OF assms(1)] by (simp add: c keep_row_def count_stars_def allowed_stars_zero)
    then show ?thesis by simp
  qed
  with out True show ?thesis by (simp add: list_all2_same)
next
  case False
  let ?kept = "filter (keep_row (allowed_stars (length (columns df)) t)) (rows df)"
  let ?f = "\<lambda>r. (fst r, coerce_row p int_columns_to_convert (rename_columns (columns df)) (snd r))"
  note f = preprocess_data_frame [OF assms(2) False]
  note r = preprocess_data_Inr [OF assms(2) False assms(1)]
  have "list_all2 (\<lambda>ro ri. fst ro = fst ri \<and>
              (\<forall>j<length (columns out). columns out ! j \<notin> set int_columns_to_convert \<longrightarrow>
                 snd ro ! j = snd ri ! j)) (map ?f ?kept) ?kept"
  proof (rule list_all2_map_same)
    fix x assume "x \<in> set ?kept"
    then have "x \<in> set (rows df)" by simp
    then have len: "length (snd x) = length (columns df)"
      by (rule wf_df_rowD [OF assms(1)])
    show "fst (?f x) = fst x \<and>
        (\<forall>j<length (columns out). columns out ! j \<notin> set int_columns_to_convert \<longrightarrow>
            snd (?f x) ! j = snd x ! j)"
      using len by (simp add: f(1) length_rename_columns nth_coerce_row)
  qed
  with r f(1) False show ?thesis by simp
qed

lemma untidy_run:
  "preprocess_data plain_integers untidy_batch default_threshold = Inr untidy_cleaned"
  by code_simp

theorem preprocess_other_cells_witness:
  "wf_df untidy_batch \<and>
   preprocess_data plain_integers untidy_batch default_threshold = Inr untidy_cleaned \<and>
   columns untidy_cleaned ! 0 \<notin> set int_columns_to_convert \<and>
   map (\<lambda>r. snd r ! 0) (rows untidy_cleaned) = map (\<lambda>r. snd r ! 0) (rows untidy_batch)"
proof -
  have wf: "wf_df untidy_batch" by (simp add: wf_df_def untidy_batch_def)
  have k: "filter (keep_row (allowed_stars (length (columns untidy_batch)) default_threshold))
      (rows untidy_batch) = rows untidy_batch"
    by (simp add: untidy_batch_def keep_row_def count_stars_def allowed_stars_def
        default_threshold_def trunc_int_def)
  have c: "columns untidy_cleaned ! 0 \<notin> set int_columns_to_convert"
    by (simp add: untidy_cleaned_def int_columns_to_convert_def)
  have l: "0 < length (columns untidy_cleaned)" by (simp add: untidy_cleaned_def)
  from preprocess_other_cells [OF wf untidy_run, THEN conjunct2]
  have "list_all2 (\<lambda>ro ri. fst ro = fst ri \<and>
              (\<forall>j<length (columns untidy_cleaned).
                 columns untidy_cleaned ! j \<notin> set int_columns_to_convert \<longrightarrow>
                 snd ro ! j = snd ri ! j))
           (rows untidy_cleaned) (rows untidy_batch)"
    unfolding k .
  then have "list_all2 (\<lambda>ro ri. snd ro ! 0 = snd ri ! 0) (rows untidy_cleaned) (rows untidy_batch)"
    by (rule list_all2_mono) (use c l in blast)
  then have "map (\<lambda>r. snd r ! 0) (rows untidy_cleaned) = map (\<lambda>r. snd r ! 0) (rows untidy_batch)"
    by (simp add: list_all2_conv_all_nth list_eq_iff_nth_eq)
  with wf untidy_run c show ?thesis by simp
qed

subsection \<open>The converted columns\<close>

lemma convert_column_succeeds:
  assumes wf: "wf_df df" and one: "count_list (columns df) col = 1"
    and fin: "\<forall>r\<in>set (rows df). to_numeric_coerce p (snd r ! position col (columns df)) \<noteq> NonFinite"
  shows "\<exists>df'. convert_column p col df = Inr df'"
proof -
  let ?j = "position col (columns df)"
  let ?a = "astype_int (map (\<lambda>c. fillna0 (to_numeric_coerce p c)) (column_values ?j df))"
  have "\<exists>ints. ?a = Inr ints"
  proof (cases ?a)
    case (Inl e)
    then obtain c where "c \<in> set (column_values ?j df)" "to_numeric_coerce p c = NonFinite"
      unfolding astype_int_Inl by blast
    with fin show ?thesis by (auto simp: column_values_def)
  next
    case (Inr ints)
    then show ?thesis by blast
  qed
  then show ?thesis using one by (auto simp: convert_column_def Let_def)
qed

lemma convert_columns_succeeds:
  assumes "wf_df df" "distinct cols"
    and "\<forall>col\<in>set cols. count_list (columns df) col \<le> 1"
    and "\<forall>r\<in>set (rows df). \<forall>j<length (columns df). columns df ! j \<in> set cols \<longrightarrow>
           to_numeric_coerce p (snd r ! j) \<noteq> NonFinite"
  shows "\<exists>out. convert_columns p cols df = Inr out"
  using assms
proof (induction cols arbitrary: df)
  case Nil
  then show ?case by simp
next
  case (Cons col cols)
  from Cons.prems(2) have d: "distinct cols" and new: "col \<notin> set cols" by simp_all
  show ?case
  proof (cases "col \<in> set (columns df)")
    case False
    have c1: "\<forall>c\<in>set cols. count_list (columns df) c \<le> 1"
      using Cons.prems(3) by simp
    have c2: "\<forall>r\<in>set (rows df). \<forall>j<length (columns df). columns df ! j \<in> set cols \<longrightarrow>
           to_numeric_coerce p (snd r ! j) \<noteq> NonFinite"
      using Cons.prems(4) by simp
    have "\<exists>out. convert_columns p cols df = Inr out"
      by (rule Cons.IH [OF Cons.prems(1) d c1 c2])
    with False show ?thesis by simp
  next
    case True
    then have "count_list (columns df) col \<noteq> 0" by (simp add: count_list_0_iff)
    moreover have "count_list (columns df) col \<le> 1" using Cons.prems(3) by simp
    ultimately have one: "count_list (columns df) col = 1" by linarith
    note pos = position_count_one [OF one]
    let ?j = "position col (columns df)"
    have pj: "?j < length (columns df)" and cj: "columns df ! ?j = col"
      using pos by blast+
    have "\<forall>r\<in>set (rows df). to_numeric_coerce p (snd r ! ?j) \<noteq> NonFinite"
    proof
      fix r assume "r \<in> set (rows df)"
      with Cons.prems(4) pj have "columns df ! ?j \<in> set (col # cols) \<longrightarrow>
          to_numeric_coerce p (snd r ! ?j) \<noteq> NonFinite" by blast
      with cj show "to_numeric_coerce p (snd r ! ?j) \<noteq> NonFinite" by simp
    qed
    from convert_column_succeeds [OF Cons.prems(1) one this]
    obtain df' where c: "convert_column p col df = Inr df'" by blast
    note cc = convert_column_Inr(2) [OF c]
    have cols': "columns df' = columns df" using cc by simp
    have rows': "rows df' = map (\<lambda>r. (fst r, (snd r)[?j := coerce_cell p (snd r ! ?j)])) (rows df)"
      using cc by simp
    have wf': "wf_df df'"
      using Cons.prems(1) by (simp add: wf_df_def list_all_iff cols' rows')
    have cnt': "\<forall>col\<in>set cols. count_list (columns df') col \<le> 1"
      using Cons.prems(3) by (simp add: cols')
    have fin': "\<forall>r\<in>set (rows df'). \<forall>j<length (columns df'). columns df' ! j \<in> set cols \<longrightarrow>
           to_numeric_coerce p (snd r ! j) \<noteq> NonFinite"
    proof (intro ballI allI impI)
      fix r j
      assume r: "r \<in> set (rows df')" and j: "j < length (columns df')"
        and m: "columns df' ! j \<in> set cols"
      from r obtain r0 where r0: "r0 \<in> set (rows df)"
        and req: "r = (fst r0, (snd r0)[?j := coerce_cell p (snd r0 ! ?j)])"
        unfolding rows' by auto
      from m new cj have "j \<noteq> ?j" unfolding cols' by auto
      then have "snd r ! j = snd r0 ! j" by (simp add: req)
      moreover have "to_numeric_coerce p (snd r0 ! j) \<noteq> NonFinite"
      proof -
        from j have "j < length (columns df)" by (simp add: cols')
        moreover from m have "columns df ! j \<in> set (col # cols)" by (simp add: cols')
        ultimately show ?thesis using Cons.prems(4) r0 by blast
      qed
      ultimately show "to_numeric_coerce p (snd r ! j) \<noteq> NonFinite" by simp
    qed
    from Cons.IH [OF wf' d cnt' fin'] c True show ?thesis by simp
  qed
qed

lemma coerce_cell_cases:
  assumes "to_numeric_coerce p c \<noteq> NonFinite"
  shows "(\<exists>i. coerce_cell p c = IntCell i) \<and>
         (to_numeric_coerce p c = NotANumber \<longrightarrow> coerce_cell p c = IntCell 0)"
  using assms by (cases "to_numeric_coerce p c") (simp_all add: coerce_cell_def trunc_int_def)

text \<open>
  C3, as amended. Take a non-empty rectangular batch in which, after the renaming, none
  of the four labels \<open>COMUNA_RESIDENCIA\<close>, \<open>REGION_RESIDENCIA\<close>, \<open>ANO_EGRESO\<close>,
  \<open>DIAS_ESTADA\<close> is on more than one column, and in which no cell of such a column, in
  a row that the filter keeps, reads as an infinity. Then \<open>preprocess_data\<close> returns a
  batch (it does not raise), every cell of the returned batch in a column with one of
  the four labels is an integer, so none is null or NaN, and such a cell is the
  integer 0 when the cell of the input reads as no number.
\<close>

theorem preprocess_int_columns:
  assumes ne: "\<not> empty_df df" and wf: "wf_df df"
    and once: "\<forall>col\<in>set int_columns_to_convert. count_list (rename_columns (columns df)) col \<le> 1"
    and fin: "\<forall>r\<in>set (rows df). keep_row (allowed_stars (length (columns df)) t) r \<longrightarrow>
        (\<forall>j<length (columns df). rename_columns (columns df) ! j \<in> set int_columns_to_convert \<longrightarrow>
           to_numeric_coerce p (snd r ! j) \<noteq> NonFinite)"
  shows "\<exists>out. preprocess_data p df t = Inr out \<and>
           list_all2 (\<lambda>ro ri. \<forall>j<length (columns out).
                columns out ! j \<in> set int_columns_to_convert \<longrightarrow>
                (\<exists>i. snd ro ! j = IntCell i) \<and>
                (to_numeric_coerce p (snd ri ! j) = NotANumber \<longrightarrow> snd ro ! j = IntCell 0))
             (rows out) (filter (keep_row (allowed_stars (length (columns df)) t)) (rows df))"
proof -
  let ?kept = "filter (keep_row (allowed_stars (length (columns df)) t)) (rows df)"
  let ?labels = "rename_columns (columns df)"
  let ?f = "\<lambda>r. (fst r, coerce_row p int_columns_to_convert ?labels (snd r))"
  let ?d = "rename_df (filter_rows df t)"
  have cd: "columns ?d = ?labels" and rd: "rows ?d = ?kept"
    by (simp_all add: rename_df_def columns_filter_rows rows_filter_rows)
  have "\<exists>out. convert_columns p int_columns_to_convert ?d = Inr out"
  proof (rule convert_columns_succeeds [OF wf_df_prepared [OF wf] distinct_int_columns])
    show "\<forall>col\<in>set int_columns_to_convert. count_list (columns ?d) col \<le> 1"
      using once by (simp add: cd)
    show "\<forall>r\<in>set (rows ?d). \<forall>j<length (columns ?d). columns ?d ! j \<in> set int_columns_to_convert \<longrightarrow>
           to_numeric_coerce p (snd r ! j) \<noteq> NonFinite"
      using fin by (simp add: cd rd length_rename_columns)
  qed
  then obtain out where out: "preprocess_data p df t = Inr out"
    using ne by (auto simp: preprocess_data_def)
  note f = preprocess_data_frame [OF out ne]
  note r = preprocess_data_Inr [OF out ne wf]
  have "list_all2 (\<lambda>ro ri. \<forall>j<length (columns out).
                columns out ! j \<in> set int_columns_to_convert \<longrightarrow>
                (\<exists>i. snd ro ! j = IntCell i) \<and>
                (to_numeric_coerce p (snd ri ! j) = NotANumber \<longrightarrow> snd ro ! j = IntCell 0))
             (map ?f ?kept) ?kept"
  proof (rule list_all2_map_same, intro allI impI)
    fix x j
    assume x: "x \<in> set ?kept" and j: "j < length (columns out)"
      and m: "columns out ! j \<in> set int_columns_to_convert"
    from x have xr: "x \<in> set (rows df)"
      and xk: "keep_row (allowed_stars (length (columns df)) t) x" by simp_all
    have len: "length (snd x) = length (columns df)"
      using xr by (rule wf_df_rowD [OF wf])
    from j have j': "j < length (columns df)" by (simp add: f(1) length_rename_columns)
    from fin xr xk j' m have nf: "to_numeric_coerce p (snd x ! j) \<noteq> NonFinite"
      by (simp add: f(1))
    have "snd (?f x) ! j = coerce_cell p (snd x ! j)"
      using j' len m by (simp add: nth_coerce_row length_rename_columns f(1))
    with coerce_cell_cases [OF nf]
    show "(\<exists>i. snd (?f x) ! j = IntCell i) \<and>
        (to_numeric_coerce p (snd x ! j) = NotANumber \<longrightarrow> snd (?f x) ! j = IntCell 0)"
      by simp
  qed
  with out r show ?thesis by simp
qed

lemma plain_integers_finite: "plain_integers s \<noteq> NonFinite"
  by (simp add: plain_integers_def split: option.split)

theorem preprocess_int_columns_witness:
  "\<not> empty_df untidy_batch \<and> wf_df untidy_batch \<and>
   preprocess_data plain_integers untidy_batch default_threshold = Inr untidy_cleaned \<and>
   columns untidy_cleaned ! 1 = ''DIAS_ESTADA'' \<and>
   to_numeric_coerce plain_integers (snd (rows untidy_batch ! 0) ! 1) = NotANumber \<and>
   snd (rows untidy_cleaned ! 0) ! 1 = IntCell 0"
proof -
  have ne: "\<not> empty_df untidy_batch" by (simp add: empty_df_def untidy_batch_def)
  have wf: "wf_df untidy_batch" by (simp add: wf_df_def untidy_batch_def)
  have labels: "rename_columns (columns untidy_batch) = [''SEXO'', ''DIAS_ESTADA'']"
    by code_simp
  have once: "\<forall>col\<in>set int_columns_to_convert.
      count_list (rename_columns (columns untidy_batch)) col \<le> 1"
    unfolding labels by (simp add: int_columns_to_convert_def)
  have cells: "\<forall>r\<in>set (rows untidy_batch). \<forall>c\<in>set (snd r).
      to_numeric_coerce plain_integers c \<noteq> NonFinite"
    by (simp add: untidy_batch_def plain_integers_finite)
  have fin: "\<forall>r\<in>set (rows untidy_batch).
      keep_row (allowed_stars (length (columns untidy_batch)) default_threshold) r \<longrightarrow>
      (\<forall>j<length (columns untidy_batch).
          rename_columns (columns untidy_batch) ! j \<in> set int_columns_to_convert \<longrightarrow>
          to_numeric_coerce plain_integers (snd r ! j) \<noteq> NonFinite)"
  proof (intro ballI impI allI)
    fix r j
    assume r: "r \<in> set (rows untidy_batch)" and j: "j < length (columns untidy_batch)"
    from wf_df_rowD [OF wf r] j have "snd r ! j \<in> set (snd r)" by simp
    with cells r show "to_numeric_coerce plain_integers (snd r ! j) \<noteq> NonFinite" by blast
  qed
  have k: "filter (keep_row (allowed_stars (length (columns untidy_batch)) default_threshold))
      (rows untidy_batch) = rows untidy_batch"
    by (simp add: untidy_batch_def keep_row_def count_stars_def allowed_stars_def
        default_threshold_def trunc_int_def)
  have c: "columns untidy_cleaned ! 1 = ''DIAS_ESTADA''" by (simp add: untidy_cleaned_def)
  have m: "columns untidy_cleaned ! 1 \<in> set int_columns_to_convert"
    by (simp add: untidy_cleaned_def int_columns_to_convert_def)
  have l: "1 < length (columns untidy_cleaned)" "0 < length (rows untidy_cleaned)"
    by (simp_all add: untidy_cleaned_def)
  have n: "to_numeric_coerce plain_integers (snd (rows untidy_batch ! 0) ! 1) = NotANumber"
    by (simp add: untidy_batch_def plain_integers_def py_int_def py_strip_def py_isspace_def
        py_digits_def is_digit_def)
  from preprocess_int_columns [OF ne wf once fin] untidy_run
  have "list_all2 (\<lambda>ro ri. \<forall>j<length (columns untidy_cleaned).
                columns untidy_cleaned ! j \<in> set int_columns_to_convert \<longrightarrow>
                (\<exists>i. snd ro ! j = IntCell i) \<and>
                (to_numeric_coerce plain_integers (snd ri ! j) = NotANumber \<longrightarrow> snd ro ! j = IntCell 0))
             (rows untidy_cleaned) (rows untidy_batch)"
    unfolding k by auto
  then have "\<forall>j<length (columns untidy_cleaned).
                columns untidy_cleaned ! j \<in> set int_columns_to_convert \<longrightarrow>
                (\<exists>i. snd (rows untidy_cleaned ! 0) ! j = IntCell i) \<and>
                (to_numeric_coerce plain_integers (snd (rows untidy_batch ! 0) ! j) = NotANumber \<longrightarrow>
                   snd (rows untidy_cleaned ! 0) ! j = IntCell 0)"
    using l(2) by (rule list_all2_nthD)
  with l(1) m n have "snd (rows untidy_cleaned ! 0) ! 1 = IntCell 0" by blast
  with ne wf untidy_run c n show ?thesis by simp
qed

text \<open>
  C3, as stated, fails on a non-empty batch whose header has both \<open>DIAS_ESTADIA\<close> and
  \<open>DIAS_ESTADA\<close>: the renaming puts the label \<open>DIAS_ESTADA\<close> on two columns, and the
  conversion raises \<open>TypeError\<close>, whatever the cells are; the text \<open>abc\<close> does not
  become 0.
\<close>

theorem preprocess_both_spellings_raises:
  "\<not> empty_df both_spellings_batch \<and>
   to_numeric_coerce plain_integers (StrCell ''abc'') = NotANumber \<and>
   preprocess_data plain_integers both_spellings_batch default_threshold = Inl TypeError"
proof -
  have "preprocess_data plain_integers both_spellings_batch default_threshold = Inl TypeError"
    by code_simp
  moreover have "to_numeric_coerce plain_integers (StrCell ''abc'') = NotANumber"
    by (simp add: plain_integers_def py_int_def py_strip_def py_isspace_def
        py_digits_def is_digit_def)
  ultimately show ?thesis by (simp add: empty_df_def both_spellings_batch_def)
qed

section \<open>The loader\<close>

text \<open>
  C7. \<open>load_data\<close> always returns a batch: the batch that \<open>read_csv\<close> parsed or, when
  \<open>read_csv\<close> raised \<open>FileNotFoundError\<close> or any other exception, the empty batch
  \<open>pd.DataFrame()\<close>, which has no row.
\<close>

theorem load_data_total:
  "(\<forall>df. read_csv file_path = Inr df \<longrightarrow> load_data read_csv file_path = df) \<and>
   (\<forall>e. read_csv file_path = Inl e \<longrightarrow>
      load_data read_csv file_path = pd_DataFrame \<and>
      rows (load_data read_csv file_path) = [] \<and> empty_df (load_data read_csv file_path))"
  by (auto simp: load_data_def pd_DataFrame_def empty_df_def split: sum.splits py_exception.splits)

theorem load_data_total_witness:
  "two_files_read_csv ''data/EGRE_DATOS_ABIERTOS_2019.csv'' =
     Inr \<lparr>columns = [''ANO_EGRESO''], rows = [(0, [IntCell 2018])]\<rparr> \<and>
   load_data two_files_read_csv ''data/EGRE_DATOS_ABIERTOS_2019.csv'' =
     \<lparr>columns = [''ANO_EGRESO''], rows = [(0, [IntCell 2018])]\<rparr> \<and>
   two_files_read_csv ''data/missing.csv'' = Inl FileNotFoundError \<and>
   rows (load_data two_files_read_csv ''data/missing.csv'') = []"
proof -
  have a: "two_files_read_csv ''data/EGRE_DATOS_ABIERTOS_2019.csv'' =
     Inr \<lparr>columns = [''ANO_EGRESO''], rows = [(0, [IntCell 2018])]\<rparr>"
    by (simp add: two_files_read_csv_def)
  have b: "two_files_read_csv ''data/missing.csv'' = Inl FileNotFoundError"
    by (simp add: two_files_read_csv_def)
  from load_data_total [of two_files_read_csv "''data/EGRE_DATOS_ABIERTOS_2019.csv''"] a
  have "load_data two_files_read_csv ''data/EGRE_DATOS_ABIERTOS_2019.csv'' =
     \<lparr>columns = [''ANO_EGRESO''], rows = [(0, [IntCell 2018])]\<rparr>" by blast
  moreover from load_data_total [of two_files_read_csv "''data/missing.csv''"] b
  have "rows (load_data two_files_read_csv ''data/missing.csv'') = []" by blast
  ultimately show ?thesis using a b by simp
qed

section \<open>The existence check and the driver\<close>

text \<open>
  C6. \<open>data_already_exist\<close> is false for an absent year; for a year \<open>y\<close> it is true
  exactly when the query for \<open>y\<close> on the named table returns at least one row; and it
  is false, and nothing is raised, when the query fails, be it for a missing table or
  for any other reason.
\<close>

theorem data_already_exist_cases:
  "\<not> data_already_exist engine d t None \<and>
   (data_already_exist engine d t (Some y) \<longleftrightarrow> (\<exists>r rs. select_year engine d t y = Inr (r # rs))) \<and>
   (\<forall>e. select_year engine d t y = Inl e \<longrightarrow> \<not> data_already_exist engine d t (Some y))"
  by (auto simp: data_already_exist_def neq_Nil_conv split: sum.splits py_exception.splits)

theorem data_already_exist_cases_witness:
  "select_year mem_engine store_2018 ''egresos_pacientes'' 2018 = Inr [[IntCell 1]] \<and>
   data_already_exist mem_engine store_2018 ''egresos_pacientes'' (Some 2018) \<and>
   select_year mem_engine store_2018 ''egresos'' 2018 =
     Inl (OperationalError ''no such table: egresos'') \<and>
   \<not> data_already_exist mem_engine store_2018 ''egresos'' (Some 2018)"
proof -
  have a: "select_year mem_engine store_2018 ''egresos_pacientes'' 2018 = Inr [[IntCell 1]]"
    by (simp add: mem_engine_def mem_select_year_def store_2018_def)
  have b: "select_year mem_engine store_2018 ''egresos'' 2018 =
     Inl (OperationalError ''no such table: egresos'')"
    by (simp add: mem_engine_def mem_select_year_def store_2018_def)
  from data_already_exist_cases [of mem_engine store_2018 "''egresos_pacientes''" 2018] a
  have "data_already_exist mem_engine store_2018 ''egresos_pacientes'' (Some 2018)" by blast
  moreover from data_already_exist_cases [of mem_engine store_2018 "''egresos''" 2018] b
  have "\<not> data_already_exist mem_engine store_2018 ''egresos'' (Some 2018)" by blast
  ultimately show ?thesis using a b by simp
qed

text \<open>
  On the store of the examples the check is true exactly when the table is there, has
  the column \<open>ANO_EGRESO\<close> and holds a row of the year.
\<close>

lemma mem_engine_exists_iff:
  "data_already_exist mem_engine d t (Some y) \<longleftrightarrow>
     (\<exists>tb. map_of d t = Some tb \<and> ''ANO_EGRESO'' \<in> set (tcolumns tb) \<and> 0 < year_count d t y)"
  by (auto simp: data_already_exist_def mem_engine_def mem_select_year_def year_count_def
      take_Suc filter_empty_conv split: option.splits list.splits)










end
